theory Spec2Isabelle
  imports Main "HOL-Library.Sublist"
begin

section \<open>Strings of the source language\<close>

text \<open>
  The plugin is TypeScript. A source string is modelled as a HOL \<open>string\<close>; a \<open>char\<close>
  stands for the code unit of the same number, so the model covers the strings whose code
  units are below 256. Of the characters that \<open>\s\<close> and \<open>trim\<close> treat as white space,
  these lie in that range: tab, line feed, vertical tab, form feed, carriage return, space
  and the no-break space. The line terminators among them are line feed and carriage return.
\<close>

abbreviation NL :: char where
  "NL \<equiv> CHR 0x0A"

definition is_space :: "char \<Rightarrow> bool" where
  "is_space c \<longleftrightarrow>
     c = CHR 0x09 \<or> c = CHR 0x0A \<or> c = CHR 0x0B \<or> c = CHR 0x0C \<or> c = CHR 0x0D \<or>
     c = CHR 0x20 \<or> c = CHR 0xA0"

definition is_line_terminator :: "char \<Rightarrow> bool" where
  "is_line_terminator c \<longleftrightarrow> c = CHR 0x0A \<or> c = CHR 0x0D"

definition trimStart :: "string \<Rightarrow> string" where
  "trimStart s = dropWhile is_space s"

definition trimEnd :: "string \<Rightarrow> string" where
  "trimEnd s = rev (dropWhile is_space (rev s))"

definition trim :: "string \<Rightarrow> string" where
  "trim s = trimEnd (trimStart s)"

text \<open>\<open>xs.join(sep)\<close>: the elements with the separator between neighbours.\<close>

fun join :: "string \<Rightarrow> string list \<Rightarrow> string" where
  "join sep [] = []"
| "join sep [x] = x"
| "join sep (x # y # ys) = x @ sep @ join sep (y # ys)"

subsection \<open>The two regular-expression replacements\<close>

text \<open>
  \<open>s.replace(/\s+$/m, "")\<close>. The expression has the multiline flag and no global flag:
  \<open>$\<close> holds at the end of the input and before every line terminator, and only the
  leftmost match is replaced. \<open>ws_eol_match s\<close> is the length of the match that starts
  at the head of the remaining input \<open>s\<close>: the quantifier is greedy and backtracks, so it
  is the largest \<open>k \<ge> 1\<close> with \<open>k\<close> white-space characters followed by a place where
  \<open>$\<close> holds.
\<close>

definition ws_eol_match :: "string \<Rightarrow> nat option" where
  "ws_eol_match s =
     (let n = length (takeWhile is_space s)
      in find (\<lambda>k. k = length s \<or> is_line_terminator (s ! k)) (rev [1..<Suc n]))"

fun replace_ws_eol :: "string \<Rightarrow> string" where
  "replace_ws_eol [] = []"
| "replace_ws_eol (c # cs) =
     (case ws_eol_match (c # cs) of
        Some k \<Rightarrow> drop k (c # cs)
      | None \<Rightarrow> c # replace_ws_eol cs)"

text \<open>
  \<open>s.replace(/\n{3,}$/g, "\n\n")\<close>. Without the multiline flag \<open>$\<close> holds at the end
  of the input only, so a match is a run of at least three line feeds that reaches the end;
  the leftmost one starts where that run starts, and after it nothing is left to match.
\<close>

fun replace_trailing_newlines :: "string \<Rightarrow> string" where
  "replace_trailing_newlines [] = []"
| "replace_trailing_newlines (c # cs) =
     (if 3 \<le> length (c # cs) \<and> (\<forall>x \<in> set (c # cs). x = NL) then [NL, NL]
      else c # replace_trailing_newlines cs)"

section \<open>Policies and their serialisation\<close>

record RobotsPolicy =
  userAgent :: "string option"
  allow :: "string list option"
  disallow :: "string list option"

text \<open>
  \<open>Array.from(new Set(arr ?? []))\<close>: the elements are added to the set one by one, an
  element that is already there is skipped, and the set is read back in insertion order.
\<close>

fun set_add_all :: "'a list \<Rightarrow> 'a list \<Rightarrow> 'a list" where
  "set_add_all seen [] = seen"
| "set_add_all seen (x # xs) =
     (if x \<in> set seen then set_add_all seen xs else set_add_all (seen @ [x]) xs)"

definition uniq :: "'a list option \<Rightarrow> 'a list" where
  "uniq arr = set_add_all [] (case arr of None \<Rightarrow> [] | Some xs \<Rightarrow> xs)"

text \<open>
  \<open>lines(...xs)\<close> is \<open>xs.filter(Boolean).map((x) => String(x))\<close>. An argument is a
  string, or one of \<open>null\<close>, \<open>undefined\<close>, \<open>false\<close> (here \<open>None\<close>); \<open>Boolean\<close> is
  false on those three and on the empty string.
\<close>

fun js_Boolean :: "string option \<Rightarrow> bool" where
  "js_Boolean None = False"
| "js_Boolean (Some s) = (s \<noteq> [])"

fun js_String :: "string option \<Rightarrow> string" where
  "js_String (Some s) = s"
| "js_String None = ''undefined''"

definition lines :: "string option list \<Rightarrow> string list" where
  "lines xs = map js_String (filter js_Boolean xs)"

text \<open>The body of the loop of \<open>serializePolicies\<close>: the block of one policy.\<close>

definition policy_lines :: "RobotsPolicy \<Rightarrow> string list" where
  "policy_lines p =
     (let ua = (let t = trim (case userAgent p of None \<Rightarrow> ''*'' | Some u \<Rightarrow> u)
                in if t = [] then ''*'' else t);
          dis = map (\<lambda>d. ''Disallow: '' @ d) (uniq (disallow p));
          allow = map (\<lambda>a. ''Allow: '' @ a) (uniq (allow p))
      in lines ([Some (''User-agent: '' @ ua)] @ map Some dis @ map Some allow @ [Some '''']))"

definition policy_block :: "RobotsPolicy \<Rightarrow> string" where
  "policy_block p = join [NL] (policy_lines p)"

text \<open>\<open>serializePolicies\<close> of \<open>src/index.ts\<close>.\<close>

definition serializePolicies :: "RobotsPolicy list \<Rightarrow> string" where
  "serializePolicies policies =
     replace_ws_eol (join [NL] (map policy_block policies)) @ [NL]"

text \<open>
  \<open>serializePolicies\<close> of \<open>vite/plugins/generate-robots.ts\<close>, which ends with
  \<open>trimEnd()\<close> where the other file has the regular expression.
\<close>

definition gr_serializePolicies :: "RobotsPolicy list \<Rightarrow> string" where
  "gr_serializePolicies policies =
     trimEnd (join [NL] (map policy_block policies)) @ [NL]"

definition defaultPolicies :: "RobotsPolicy list" where
  "defaultPolicies = [\<lparr>userAgent = Some ''*'', allow = Some [''/''], disallow = Some []\<rparr>]"

section \<open>Options, context and content synthesis\<close>

datatype command = Serve | Build

record ctx =
  mode :: string
  command :: command
  root :: string

text \<open>
  \<open>sitemaps\<close> is a list or a function of the context that returns a list or
  \<open>undefined\<close>; \<open>footerComment\<close> is a string or a function that returns a string or
  \<open>undefined\<close>. An optional field that is absent is \<open>None\<close>.
\<close>

datatype sitemaps_option =
  SitemapList "string list"
| SitemapBuilder "ctx \<Rightarrow> string list option"

datatype footer_option =
  FooterText string
| FooterBuilder "ctx \<Rightarrow> string option"

record RobotsOptions =
  outputDir :: "string option"
  filename :: "string option"
  policies :: "RobotsPolicy list option"
  policyBuilder :: "(ctx \<Rightarrow> RobotsPolicy list) option"
  sitemaps :: "sitemaps_option option"
  footerComment :: "footer_option option"
  noStoreInDev :: "bool option"

text \<open>
  The functions in the options are supplied by the user. Each call that \<open>buildContent\<close>
  makes to one of them is recorded, in the order of the calls, so that a theorem can say
  that a function has not been called.
\<close>

datatype builder_call =
  CallPolicyBuilder ctx
| CallSitemaps ctx
| CallFooterComment ctx

text \<open>
  The three resolutions of \<open>buildContent\<close>, each with the calls it makes.
  \<open>a ?? b\<close> is \<open>b\<close> only when \<open>a\<close> is \<open>null\<close> or \<open>undefined\<close>: the explicit list
  counts as absent when it is empty (\<open>opts.policies.length\<close>), and what the policy builder
  returns is taken as it is.
\<close>

definition resolve_policies :: "ctx \<Rightarrow> RobotsOptions \<Rightarrow> RobotsPolicy list \<times> builder_call list" where
  "resolve_policies c opts =
     (case (case policies opts of
              Some ps \<Rightarrow> if length ps \<noteq> 0 then Some ps else None
            | None \<Rightarrow> None) of
        Some ps \<Rightarrow> (ps, [])
      | None \<Rightarrow>
          (case policyBuilder opts of
             Some f \<Rightarrow> (f c, [CallPolicyBuilder c])
           | None \<Rightarrow> (defaultPolicies, [])))"

definition resolve_sitemaps :: "ctx \<Rightarrow> RobotsOptions \<Rightarrow> string list option \<times> builder_call list" where
  "resolve_sitemaps c opts =
     (case sitemaps opts of
        Some (SitemapBuilder f) \<Rightarrow> (f c, [CallSitemaps c])
      | Some (SitemapList xs) \<Rightarrow> (Some xs, [])
      | None \<Rightarrow> (None, []))"

definition resolve_footer :: "ctx \<Rightarrow> RobotsOptions \<Rightarrow> string option \<times> builder_call list" where
  "resolve_footer c opts =
     (case footerComment opts of
        Some (FooterBuilder f) \<Rightarrow> (f c, [CallFooterComment c])
      | Some (FooterText s) \<Rightarrow> (Some s, [])
      | None \<Rightarrow> (None, []))"

text \<open>
  \<open>smBlock\<close> and \<open>footerBlock\<close>. \<open>sitemaps?.length\<close> is false for \<open>undefined\<close> and
  for the empty list; \<open>foot\<close> is false for \<open>undefined\<close> and for the empty string, and it
  is tested before it is trimmed.
\<close>

definition sitemap_block :: "string list option \<Rightarrow> string" where
  "sitemap_block sm =
     (case sm of
        None \<Rightarrow> []
      | Some us \<Rightarrow>
          if length us \<noteq> 0 then join [NL] (map (\<lambda>u. ''Sitemap: '' @ u) us) @ [NL] else [])"

definition footer_block :: "string option \<Rightarrow> string" where
  "footer_block foot =
     (case foot of
        None \<Rightarrow> []
      | Some f \<Rightarrow> if f \<noteq> [] then [NL] @ ''# '' @ trim f @ [NL] else [])"

text \<open>\<open>buildContent\<close> of \<open>src/index.ts\<close>: the text, and the calls made on the way.\<close>

definition buildContent_run :: "ctx \<Rightarrow> RobotsOptions \<Rightarrow> string \<times> builder_call list" where
  "buildContent_run c opts =
     (let (policies, calls1) = resolve_policies c opts;
          head = serializePolicies policies;
          (sitemaps, calls2) = resolve_sitemaps c opts;
          smBlock = sitemap_block sitemaps;
          (foot, calls3) = resolve_footer c opts;
          footerBlock = footer_block foot
      in (replace_trailing_newlines
            (head @ (if smBlock \<noteq> [] then [NL] @ smBlock else []) @ footerBlock),
          calls1 @ calls2 @ calls3))"

definition buildContent :: "ctx \<Rightarrow> RobotsOptions \<Rightarrow> string" where
  "buildContent c opts = fst (buildContent_run c opts)"

text \<open>
  \<open>buildContent\<close> of \<open>vite/plugins/generate-robots.ts\<close>: the same text apart from the
  serialisation of the policies.
\<close>

definition gr_buildContent :: "ctx \<Rightarrow> RobotsOptions \<Rightarrow> string" where
  "gr_buildContent c opts =
     (let policies = fst (resolve_policies c opts);
          head = gr_serializePolicies policies;
          sitemaps = fst (resolve_sitemaps c opts);
          smBlock = sitemap_block sitemaps;
          foot = fst (resolve_footer c opts);
          footerBlock = footer_block foot
      in replace_trailing_newlines
           (head @ (if smBlock \<noteq> [] then [NL] @ smBlock else []) @ footerBlock))"

section \<open>The file system and the conditional write\<close>













section \<open>Notions of the specification\<close>

text \<open>
  Deduplication that preserves the order of first occurrence, in the words of the
  specification: the result lists the entries at those positions of the input where an
  entry occurs for the first time, in the order of the positions.
\<close>

definition first_occurrences :: "'a list \<Rightarrow> 'a list" where
  "first_occurrences xs =
     map (\<lambda>i. xs ! i) (filter (\<lambda>i. xs ! i \<notin> set (take i xs)) [0..<length xs])"

text \<open>The entries of an optional list, none when it is absent.\<close>

fun entries :: "'a list option \<Rightarrow> 'a list" where
  "entries None = []"
| "entries (Some xs) = xs"

text \<open>Calls of the policy builder in a record of calls.\<close>

fun is_policy_call :: "builder_call \<Rightarrow> bool" where
  "is_policy_call (CallPolicyBuilder c) = True"
| "is_policy_call (CallSitemaps c) = False"
| "is_policy_call (CallFooterComment c) = False"

text \<open>Options that are plain data: no field holds a function.\<close>

fun is_sitemap_builder :: "sitemaps_option option \<Rightarrow> bool" where
  "is_sitemap_builder (Some (SitemapBuilder f)) = True"
| "is_sitemap_builder (Some (SitemapList us)) = False"
| "is_sitemap_builder None = False"

fun is_footer_builder :: "footer_option option \<Rightarrow> bool" where
  "is_footer_builder (Some (FooterBuilder f)) = True"
| "is_footer_builder (Some (FooterText t)) = False"
| "is_footer_builder None = False"

definition static_options :: "RobotsOptions \<Rightarrow> bool" where
  "static_options opts \<longleftrightarrow>
     policyBuilder opts = None \<and> \<not> is_sitemap_builder (sitemaps opts)
     \<and> \<not> is_footer_builder (footerComment opts)"

section \<open>Inputs for the examples\<close>

text \<open>
  The options \<open>{}\<close>, which \<open>generateRobotsTxt\<close> takes when it is called without an
  argument, and the context the plugin starts with (mode \<open>production\<close>, command
  \<open>build\<close>), with a context of the development server beside it.
\<close>

definition no_options :: RobotsOptions where
  "no_options =
     \<lparr>outputDir = None, filename = None, policies = None, policyBuilder = None,
      sitemaps = None, footerComment = None, noStoreInDev = None\<rparr>"

definition build_ctx :: ctx where
  "build_ctx = \<lparr>mode = ''production'', command = Build, root = ''/srv/site''\<rparr>"

definition serve_ctx :: ctx where
  "serve_ctx = \<lparr>mode = ''development'', command = Serve, root = ''/home/dev/site''\<rparr>"

text \<open>A policy builder that returns the empty list, whatever the context.\<close>

definition empty_builder :: "ctx \<Rightarrow> RobotsPolicy list" where
  "empty_builder c = []"

text \<open>A policy builder that closes the site outside production.\<close>

definition staging_builder :: "ctx \<Rightarrow> RobotsPolicy list" where
  "staging_builder c =
     (if mode c = ''production'' then [\<lparr>userAgent = Some ''*'', allow = Some [''/''], disallow = None\<rparr>]
      else [\<lparr>userAgent = Some ''*'', allow = None, disallow = Some [''/'']\<rparr>])"





section \<open>Facts about the helpers\<close>

subsection \<open>Deduplication\<close>



lemma set_add_all_snoc:
  "set_add_all seen (xs @ [x]) =
     (if x \<in> set seen \<union> set xs then set_add_all seen xs else set_add_all seen xs @ [x])"
  by (induction xs arbitrary: seen) auto

lemma first_occurrences_snoc:
  "first_occurrences (xs @ [x]) =
     (if x \<in> set xs then first_occurrences xs else first_occurrences xs @ [x])"
proof -
  let ?ys = "xs @ [x]"
  have f: "filter (\<lambda>i. ?ys ! i \<notin> set (take i ?ys)) [0..<length xs]
      = filter (\<lambda>i. xs ! i \<notin> set (take i xs)) [0..<length xs]"
    by (rule filter_cong) (simp_all add: nth_append)
  have m: "map (\<lambda>i. ?ys ! i) (filter (\<lambda>i. xs ! i \<notin> set (take i xs)) [0..<length xs])
      = map (\<lambda>i. xs ! i) (filter (\<lambda>i. xs ! i \<notin> set (take i xs)) [0..<length xs])"
    by (rule map_cong) (simp_all add: nth_append)
  have "first_occurrences ?ys =
      map (\<lambda>i. ?ys ! i) (filter (\<lambda>i. ?ys ! i \<notin> set (take i ?ys)) [0..<length xs])
      @ (if x \<in> set xs then [] else [x])"
    unfolding first_occurrences_def by simp
  also have "\<dots> = map (\<lambda>i. ?ys ! i) (filter (\<lambda>i. xs ! i \<notin> set (take i xs)) [0..<length xs])
      @ (if x \<in> set xs then [] else [x])"
    by (simp only: f)
  also have "\<dots> = first_occurrences xs @ (if x \<in> set xs then [] else [x])"
    by (simp only: m first_occurrences_def)
  finally show ?thesis by simp
qed

lemma set_add_all_first_occurrences: "set_add_all [] xs = first_occurrences xs"
proof (induction xs rule: rev_induct)
  case Nil
  show ?case by (simp add: first_occurrences_def)
next
  case (snoc x xs)
  then show ?case by (simp add: set_add_all_snoc first_occurrences_snoc)
qed

subsection \<open>The replacement at the end of the text\<close>

lemma replicate_two: "replicate 2 x = [x, x]"
  by (simp add: numeral_2_eq_2)

lemma replace_trailing_newlines_replicate:
  "replace_trailing_newlines (replicate k NL) = replicate (min k 2) NL"
proof -
  consider "k = 0" | "k = 1" | "k = 2" | "3 \<le> k" by linarith
  then show ?thesis
  proof cases
    case 1 then show ?thesis by simp
  next
    case 2 then show ?thesis by simp
  next
    case 3 then show ?thesis by (simp add: replicate_two)
  next
    case 4
    then obtain j where k: "k = Suc j" by (cases k) auto
    have "min k 2 = 2" using 4 by simp
    moreover have "replace_trailing_newlines (NL # replicate j NL) = [NL, NL]"
      using 4 k by simp
    ultimately show ?thesis by (simp add: k replicate_two del: replace_trailing_newlines.simps)
  qed
qed

lemma replace_trailing_newlines_other:
  assumes "\<not> (\<forall>x \<in> set (c # cs). x = NL)"
  shows "replace_trailing_newlines (c # cs) = c # replace_trailing_newlines cs"
proof -
  have "\<not> (3 \<le> length (c # cs) \<and> (\<forall>x \<in> set (c # cs). x = NL))"
    using assms by blast
  then show ?thesis by (simp only: replace_trailing_newlines.simps if_False)
qed

lemma replace_trailing_newlines_run:
  "p = [] \<or> last p \<noteq> NL \<Longrightarrow>
     replace_trailing_newlines (p @ replicate k NL) = p @ replicate (min k 2) NL"
proof (induction p)
  case Nil
  show ?case by (simp add: replace_trailing_newlines_replicate)
next
  case (Cons c p)
  have "last (c # p) \<in> set (c # p)" by (rule last_in_set) simp
  then have "\<not> (\<forall>x \<in> set (c # (p @ replicate k NL)). x = NL)"
    using Cons.prems by auto
  then have "replace_trailing_newlines ((c # p) @ replicate k NL)
      = c # replace_trailing_newlines (p @ replicate k NL)"
    unfolding append_Cons by (rule replace_trailing_newlines_other)
  moreover have "p = [] \<or> last p \<noteq> NL" using Cons.prems by (cases p) simp_all
  ultimately show ?case using Cons.IH by simp
qed

lemma newline_run_decomp: "\<exists>p k. s = p @ replicate k NL \<and> (p = [] \<or> last p \<noteq> NL)"
proof (induction s rule: rev_induct)
  case Nil
  show ?case by simp
next
  case (snoc x s)
  show ?case
  proof (cases "x = NL")
    case True
    from snoc obtain p k where "s = p @ replicate k NL" "p = [] \<or> last p \<noteq> NL" by blast
    then have "s @ [x] = p @ replicate (Suc k) NL \<and> (p = [] \<or> last p \<noteq> NL)"
      using True by (simp add: replicate_append_same)
    then show ?thesis by blast
  next
    case False
    then have "s @ [x] = (s @ [x]) @ replicate 0 NL \<and> (s @ [x] = [] \<or> last (s @ [x]) \<noteq> NL)"
      by simp
    then show ?thesis by blast
  qed
qed

lemma no_suffix3_short_run:
  assumes "p = [] \<or> last p \<noteq> NL" "j \<le> 2"
  shows "\<not> suffix [NL, NL, NL] (p @ replicate j NL)"
proof
  assume "suffix [NL, NL, NL] (p @ replicate j NL)"
  then obtain q where q: "p @ replicate j NL = q @ [NL, NL, NL]" by (auto simp: suffix_def)
  consider "j = 0" | "j = 1" | "j = 2" using assms(2) by linarith
  then show False
  proof cases
    case 1
    with q have "p = q @ [NL, NL, NL]" by simp
    then show False using assms(1) by simp
  next
    case 2
    with q have "p @ [NL] = (q @ [NL, NL]) @ [NL]" by simp
    then have "p = q @ [NL, NL]" by (simp only: append1_eq_conv)
    then show False using assms(1) by simp
  next
    case 3
    with q have "(p @ [NL]) @ [NL] = ((q @ [NL]) @ [NL]) @ [NL]" by (simp add: numeral_2_eq_2)
    then have "p = q @ [NL]" by (simp only: append1_eq_conv)
    then show False using assms(1) by simp
  qed
qed

lemma replace_trailing_newlines_no_suffix:
  "\<not> suffix [NL, NL, NL] (replace_trailing_newlines s)"
proof -
  obtain p k where s: "s = p @ replicate k NL" and p: "p = [] \<or> last p \<noteq> NL"
    using newline_run_decomp by blast
  have "replace_trailing_newlines s = p @ replicate (min k 2) NL"
    unfolding s using p by (rule replace_trailing_newlines_run)
  then show ?thesis using no_suffix3_short_run [OF p, of "min k 2"] by simp
qed

lemma replace_trailing_newlines_id:
  assumes "\<not> suffix [NL, NL, NL] s"
  shows "replace_trailing_newlines s = s"
proof -
  obtain p k where s: "s = p @ replicate k NL" and p: "p = [] \<or> last p \<noteq> NL"
    using newline_run_decomp by blast
  have "k \<le> 2"
  proof (rule ccontr)
    assume "\<not> k \<le> 2"
    then have "k = (k - 3) + 3" by simp
    then obtain j where "k = j + 3" ..
    moreover have "replicate (j + 3) NL = replicate j NL @ replicate 3 NL"
      by (rule replicate_add)
    moreover have "replicate 3 NL = [NL, NL, NL]"
      by (simp add: numeral_3_eq_3)
    ultimately have "s = (p @ replicate j NL) @ [NL, NL, NL]"
      using s by simp
    then show False using assms unfolding suffix_def by blast
  qed
  then have "min k 2 = k" by simp
  then show ?thesis using replace_trailing_newlines_run [OF p, of k] s by simp
qed

lemma replace_trailing_newlines_end:
  assumes "c \<noteq> NL"
  shows "replace_trailing_newlines (s @ [c, NL]) = s @ [c, NL]"
proof -
  have "replace_trailing_newlines ((s @ [c]) @ replicate 1 NL) = (s @ [c]) @ replicate (min 1 2) NL"
    by (rule replace_trailing_newlines_run) (simp add: assms)
  then show ?thesis by simp
qed

subsection \<open>Trimming, joining and the synthesis as one equation\<close>

lemma trimEnd_last: "trimEnd s = [] \<or> \<not> is_space (last (trimEnd s))"
proof (cases "dropWhile is_space (rev s) = []")
  case True
  then show ?thesis by (simp add: trimEnd_def)
next
  case False
  then have "\<not> is_space (hd (dropWhile is_space (rev s)))" by (rule hd_dropWhile)
  then show ?thesis using False by (simp add: trimEnd_def last_rev)
qed

lemma trim_last: "trim s = [] \<or> \<not> is_space (last (trim s))"
  unfolding trim_def by (rule trimEnd_last)


lemma buildContent_eq:
  "buildContent c opts =
     replace_trailing_newlines
       (serializePolicies (fst (resolve_policies c opts))
        @ (if sitemap_block (fst (resolve_sitemaps c opts)) \<noteq> []
           then [NL] @ sitemap_block (fst (resolve_sitemaps c opts)) else [])
        @ footer_block (fst (resolve_footer c opts)))"
  by (simp add: buildContent_def buildContent_run_def split: prod.splits)

lemma buildContent_calls:
  "snd (buildContent_run c opts) =
     snd (resolve_policies c opts) @ snd (resolve_sitemaps c opts) @ snd (resolve_footer c opts)"
  by (simp add: buildContent_run_def Let_def split: prod.splits)

lemma footer_block_end:
  "footer_block foot = [] \<or> (\<exists>s c. footer_block foot = s @ [c, NL] \<and> c \<noteq> NL)"
proof (cases "footer_block foot = []")
  case True
  then show ?thesis by simp
next
  case False
  then obtain f where f: "foot = Some f" "f \<noteq> []" "footer_block foot = [NL] @ ''# '' @ trim f @ [NL]"
    by (auto simp: footer_block_def split: option.splits if_splits)
  show ?thesis
  proof (cases "trim f = []")
    case True
    then have "footer_block foot = [NL, CHR ''#''] @ [CHR '' '', NL]" using f by simp
    then show ?thesis by blast
  next
    case False
    then have "\<not> is_space (last (trim f))" using trim_last [of f] by simp
    then have "last (trim f) \<noteq> NL" by (auto simp: is_space_def)
    moreover have "footer_block foot = ([NL] @ ''# '' @ butlast (trim f)) @ [last (trim f), NL]"
      using f False by simp
    ultimately show ?thesis by blast
  qed
qed

subsection \<open>Evaluation of examples\<close>

lemmas eval_defs =
  buildContent_def buildContent_run_def resolve_policies_def resolve_sitemaps_def
  resolve_footer_def sitemap_block_def footer_block_def serializePolicies_def
  gr_serializePolicies_def gr_buildContent_def
  defaultPolicies_def policy_block_def policy_lines_def uniq_def lines_def
  trim_def trimEnd_def trimStart_def is_space_def ws_eol_match_def is_line_terminator_def
  no_options_def build_ctx_def serve_ctx_def empty_builder_def staging_builder_def

lemma default_head:
  "serializePolicies defaultPolicies = ''User-agent: *\<newline>Allow: /\<newline>''"
  by (simp add: eval_defs)

subsection \<open>Resolution without functions\<close>

lemma static_resolutions:
  assumes "static_options opts"
  shows "resolve_policies c1 opts = resolve_policies c2 opts"
    and "resolve_sitemaps c1 opts = resolve_sitemaps c2 opts"
    and "resolve_footer c1 opts = resolve_footer c2 opts"
proof -
  show "resolve_policies c1 opts = resolve_policies c2 opts"
    using assms by (simp add: static_options_def resolve_policies_def split: option.splits)
  show "resolve_sitemaps c1 opts = resolve_sitemaps c2 opts"
  proof (cases "sitemaps opts")
    case None
    then show ?thesis by (simp add: resolve_sitemaps_def)
  next
    case (Some sm)
    then show ?thesis using assms
      by (cases sm) (simp_all add: static_options_def resolve_sitemaps_def)
  qed
  show "resolve_footer c1 opts = resolve_footer c2 opts"
  proof (cases "footerComment opts")
    case None
    then show ?thesis by (simp add: resolve_footer_def)
  next
    case (Some ft)
    then show ?thesis using assms
      by (cases ft) (simp_all add: static_options_def resolve_footer_def)
  qed
qed

subsection \<open>The lines of a block\<close>

lemma uniq_first_occurrences: "uniq arr = first_occurrences (entries arr)"
proof (cases arr)
  case None
  then show ?thesis by (simp add: uniq_def first_occurrences_def)
next
  case (Some xs)
  then show ?thesis by (simp add: uniq_def set_add_all_first_occurrences)
qed



lemma lines_append: "lines (xs @ ys) = lines xs @ lines ys"
  by (simp add: lines_def)

lemma lines_nonempty: "(\<And>x. f x \<noteq> []) \<Longrightarrow> lines (map Some (map f xs)) = map f xs"
  by (induction xs) (simp_all add: lines_def)

lemma policy_lines_eq:
  "\<exists>ua. policy_lines p =
     (''User-agent: '' @ ua)
     # map (\<lambda>d. ''Disallow: '' @ d) (first_occurrences (entries (disallow p)))
     @ map (\<lambda>a. ''Allow: '' @ a) (first_occurrences (entries (allow p)))"
proof -
  have d: "lines (map Some (map (\<lambda>d. ''Disallow: '' @ d) xs)) = map (\<lambda>d. ''Disallow: '' @ d) xs" for xs
    by (rule lines_nonempty) simp
  have a: "lines (map Some (map (\<lambda>a. ''Allow: '' @ a) xs)) = map (\<lambda>a. ''Allow: '' @ a) xs" for xs
    by (rule lines_nonempty) simp
  have u: "lines [Some (''User-agent: '' @ ua)] = [''User-agent: '' @ ua]" for ua
    by (simp add: lines_def)
  have e: "lines [Some []] = []"
    by (simp add: lines_def)
  define UA where "UA = (let t = trim (case userAgent p of None \<Rightarrow> ''*'' | Some u \<Rightarrow> u)
                          in if t = [] then ''*'' else t)"
  have "policy_lines p =
      lines ([Some (''User-agent: '' @ UA)]
             @ map Some (map (\<lambda>d. ''Disallow: '' @ d) (uniq (disallow p)))
             @ map Some (map (\<lambda>a. ''Allow: '' @ a) (uniq (allow p))) @ [Some []])"
    by (simp only: policy_lines_def Let_def UA_def)
  also have "\<dots> = [''User-agent: '' @ UA]
      @ map (\<lambda>d. ''Disallow: '' @ d) (uniq (disallow p))
      @ map (\<lambda>a. ''Allow: '' @ a) (uniq (allow p)) @ []"
    by (simp only: lines_append d a u e)
  finally have pl: "policy_lines p =
      (''User-agent: '' @ UA)
      # map (\<lambda>d. ''Disallow: '' @ d) (first_occurrences (entries (disallow p)))
      @ map (\<lambda>a. ''Allow: '' @ a) (first_occurrences (entries (allow p)))"
    by (simp add: uniq_first_occurrences)
  show ?thesis by (rule exI [of _ UA]) (rule pl)
qed

text \<open>
  The empty string that ends the argument list of \<open>lines\<close> never reaches the block: no
  line of a block is empty.
\<close>

lemma policy_lines_nonempty: "[] \<notin> set (policy_lines p)"
proof -
  obtain ua where "policy_lines p =
      (''User-agent: '' @ ua)
      # map (\<lambda>d. ''Disallow: '' @ d) (first_occurrences (entries (disallow p)))
      @ map (\<lambda>a. ''Allow: '' @ a) (first_occurrences (entries (allow p)))"
    using policy_lines_eq by blast
  then show ?thesis by auto
qed





subsection \<open>Sitemap and footer blocks\<close>




lemma serializePolicies_end: "suffix [NL] (serializePolicies ps)"
  by (simp add: serializePolicies_def suffix_def)



lemma no_collapse_before_footer:
  assumes "footer_block foot \<noteq> []"
  shows "replace_trailing_newlines (h @ footer_block foot) = h @ footer_block foot"
proof -
  obtain s c where f: "footer_block foot = s @ [c, NL]" and c: "c \<noteq> NL"
    using footer_block_end [of foot] assms by blast
  have "replace_trailing_newlines ((h @ s) @ [c, NL]) = (h @ s) @ [c, NL]"
    using c by (rule replace_trailing_newlines_end)
  then show ?thesis by (simp add: f)
qed

lemma trim_Nil: "trim [] = []"
  by (simp add: trim_def trimStart_def trimEnd_def)

lemma sitemap_block_end:
  "sitemap_block sm = [] \<or> suffix [NL] (sitemap_block sm)"
  by (cases sm) (auto simp: sitemap_block_def suffix_def)

text \<open>
  A footer that is not blank after trimming is rendered as an empty line, then \<open>#\<close>, a
  space and the trimmed footer, then a line feed, and this is the end of the text.
\<close>

lemma footer_rendering:
  assumes "fst (resolve_footer c opts) = Some f" and "trim f \<noteq> []"
  shows "suffix ([NL, NL] @ ''# '' @ trim f @ [NL]) (buildContent c opts)"
proof -
  let ?head = "serializePolicies (fst (resolve_policies c opts))"
  let ?sm = "sitemap_block (fst (resolve_sitemaps c opts))"
  let ?before = "?head @ (if ?sm \<noteq> [] then [NL] @ ?sm else [])"
  have "f \<noteq> []" using assms(2) trim_Nil by auto
  then have fb: "footer_block (fst (resolve_footer c opts)) = [NL] @ ''# '' @ trim f @ [NL]"
    using assms(1) by (simp add: footer_block_def)
  then have "footer_block (fst (resolve_footer c opts)) \<noteq> []" by simp
  then have "replace_trailing_newlines (?before @ footer_block (fst (resolve_footer c opts)))
      = ?before @ footer_block (fst (resolve_footer c opts))"
    by (rule no_collapse_before_footer)
  then have bc: "buildContent c opts = ?before @ footer_block (fst (resolve_footer c opts))"
    by (simp add: buildContent_eq)
  have "suffix [NL] ?before"
    using serializePolicies_end [of "fst (resolve_policies c opts)"]
      sitemap_block_end [of "fst (resolve_sitemaps c opts)"]
    by (auto simp: suffix_def)
  then obtain x where "?before = x @ [NL]" unfolding suffix_def by blast
  then have "buildContent c opts = x @ ([NL, NL] @ ''# '' @ trim f @ [NL])"
    unfolding bc fb by simp
  then show ?thesis by (rule suffixI)
qed

subsection \<open>The conditional write\<close>









section \<open>The claims\<close>

subsection \<open>Claim C1\<close>



subsection \<open>Claim C2\<close>

text \<open>
  Claim C2. A non-empty explicit policies list is the list that is serialised, and the
  policy builder is not called; when the explicit list is absent or empty and a builder is
  given, the builder is called once, with the context, and its result is serialised.
\<close>

theorem policy_resolution_precedence:
  "(\<forall>ps. policies opts = Some ps \<and> ps \<noteq> [] \<longrightarrow>
      fst (resolve_policies c opts) = ps
      \<and> filter is_policy_call (snd (buildContent_run c opts)) = [])
   \<and> (\<forall>f. (policies opts = None \<or> policies opts = Some []) \<and> policyBuilder opts = Some f \<longrightarrow>
      fst (resolve_policies c opts) = f c
      \<and> filter is_policy_call (snd (buildContent_run c opts)) = [CallPolicyBuilder c])
   \<and> buildContent c opts =
       replace_trailing_newlines
         (serializePolicies (fst (resolve_policies c opts))
          @ (if sitemap_block (fst (resolve_sitemaps c opts)) \<noteq> []
             then [NL] @ sitemap_block (fst (resolve_sitemaps c opts)) else [])
          @ footer_block (fst (resolve_footer c opts)))"
proof -
  have other: "filter is_policy_call (snd (resolve_sitemaps c opts)) = []"
    "filter is_policy_call (snd (resolve_footer c opts)) = []"
    by (auto simp: resolve_sitemaps_def resolve_footer_def
        split: option.splits sitemaps_option.splits footer_option.splits)
  have calls: "filter is_policy_call (snd (buildContent_run c opts))
      = filter is_policy_call (snd (resolve_policies c opts))"
    by (simp add: buildContent_calls other)
  have explicit: "resolve_policies c opts = (ps, [])" if "policies opts = Some ps" "ps \<noteq> []" for ps
    using that by (simp add: resolve_policies_def)
  have built: "resolve_policies c opts = (f c, [CallPolicyBuilder c])"
    if "policies opts = None \<or> policies opts = Some []" "policyBuilder opts = Some f" for f
    using that by (auto simp: resolve_policies_def)
  show ?thesis
    using explicit built by (simp add: calls buildContent_eq)
qed

theorem policy_resolution_precedence_witness:
  "fst (resolve_policies serve_ctx
          (no_options\<lparr>policies := Some [\<lparr>userAgent = Some ''Googlebot'', allow = None, disallow = Some [''/a'']\<rparr>],
                      policyBuilder := Some staging_builder\<rparr>))
     = [\<lparr>userAgent = Some ''Googlebot'', allow = None, disallow = Some [''/a'']\<rparr>]
   \<and> filter is_policy_call (snd (buildContent_run serve_ctx
          (no_options\<lparr>policies := Some [\<lparr>userAgent = Some ''Googlebot'', allow = None, disallow = Some [''/a'']\<rparr>],
                      policyBuilder := Some staging_builder\<rparr>))) = []
   \<and> fst (resolve_policies serve_ctx
          (no_options\<lparr>policies := Some [], policyBuilder := Some staging_builder\<rparr>))
     = staging_builder serve_ctx
   \<and> filter is_policy_call (snd (buildContent_run serve_ctx
          (no_options\<lparr>policies := Some [], policyBuilder := Some staging_builder\<rparr>)))
     = [CallPolicyBuilder serve_ctx]"
  using
    policy_resolution_precedence
      [of "no_options\<lparr>policies := Some [\<lparr>userAgent = Some ''Googlebot'', allow = None, disallow = Some [''/a'']\<rparr>],
                       policyBuilder := Some staging_builder\<rparr>" serve_ctx]
    policy_resolution_precedence
      [of "no_options\<lparr>policies := Some [], policyBuilder := Some staging_builder\<rparr>" serve_ctx]
  by (simp add: no_options_def)

subsection \<open>Claim C3\<close>

text \<open>
  Claim C3 says that an empty list returned by the policy builder falls back to the
  default policy. The code takes what the builder returns as it is: with a builder that
  returns the empty list and nothing else in the options, the synthesised text is a single
  line feed, not the default head.
\<close>

theorem empty_builder_result_is_kept:
  "buildContent build_ctx (no_options\<lparr>policyBuilder := Some empty_builder\<rparr>) = ''\<newline>''"
  by (simp add: eval_defs)

subsection \<open>Claim C4\<close>

text \<open>
  Claim C4 says that consecutive blocks are separated by one empty line. \<open>lines\<close> drops
  the empty string that \<open>serializePolicies\<close> passes as the last line of a block, so two
  policies are rendered with nothing but a line feed between the last line of the first
  block and the \<open>User-agent\<close> line of the second.
\<close>

theorem blocks_not_separated:
  "buildContent build_ctx
     (no_options\<lparr>policies := Some
        [\<lparr>userAgent = Some ''Googlebot'', allow = None, disallow = Some [''/private'']\<rparr>,
         \<lparr>userAgent = Some ''Bingbot'', allow = Some [''/''], disallow = None\<rparr>]\<rparr>)
   = ''User-agent: Googlebot\<newline>Disallow: /private\<newline>User-agent: Bingbot\<newline>Allow: /\<newline>''"
  by (simp add: eval_defs)

subsection \<open>Claim C5\<close>

text \<open>
  Claim C5. With no policies list, no policy builder, no sitemaps and no footer in the
  options, the synthesised text is \<open>User-agent: *\<close>, a line feed, \<open>Allow: /\<close>, a line
  feed, in every context.
\<close>

theorem default_output:
  assumes "policies opts = None" and "policyBuilder opts = None"
    and "sitemaps opts = None" and "footerComment opts = None"
  shows "buildContent c opts = ''User-agent: *\<newline>Allow: /\<newline>''"
proof -
  have "buildContent c opts = replace_trailing_newlines (serializePolicies defaultPolicies)"
    using assms
    by (simp add: buildContent_eq resolve_policies_def resolve_sitemaps_def resolve_footer_def
        sitemap_block_def footer_block_def)
  then show ?thesis by (simp add: default_head)
qed

theorem default_output_witness:
  "policies no_options = None \<and> policyBuilder no_options = None
   \<and> sitemaps no_options = None \<and> footerComment no_options = None
   \<and> buildContent build_ctx no_options = ''User-agent: *\<newline>Allow: /\<newline>''"
  using default_output [of no_options build_ctx] by (simp add: no_options_def)

subsection \<open>Claim C6\<close>



subsection \<open>Claim C7\<close>

text \<open>
  Claim C7 says that a footer of white space only gives no footer block. The code tests
  the footer before it trims it: a footer of three spaces is rendered as an empty line
  followed by the line \<open>#\<close> and a space.
\<close>

theorem blank_footer_is_rendered:
  "buildContent build_ctx (no_options\<lparr>footerComment := Some (FooterText ''   '')\<rparr>)
   = ''User-agent: *\<newline>Allow: /\<newline>\<newline># \<newline>''"
  by (simp add: eval_defs)

subsection \<open>Claim C8\<close>

text \<open>
  Claim C8. The synthesised text never ends with three line feeds: when the
  concatenation of head, sitemap block and footer block ends with a run of three or more
  line feeds, the text is that concatenation with the run cut down to two. With the
  sitemaps \<open>https://x/sitemap.xml\<close> and the footer \<open>built by CI\<close> the text ends with
  the sitemap line, an empty line and the footer line; with the default policy it is the
  text given below, which has no three line feeds in a row anywhere.
\<close>

theorem end_of_file_canonical:
  "\<not> suffix [NL, NL, NL] (buildContent c opts)
   \<and> (\<forall>p k. serializePolicies (fst (resolve_policies c opts))
             @ (if sitemap_block (fst (resolve_sitemaps c opts)) \<noteq> []
                then [NL] @ sitemap_block (fst (resolve_sitemaps c opts)) else [])
             @ footer_block (fst (resolve_footer c opts)) = p @ replicate k NL
           \<and> (p = [] \<or> last p \<noteq> NL) \<and> 3 \<le> k \<longrightarrow>
         buildContent c opts = p @ [NL, NL])
   \<and> (sitemaps opts = Some (SitemapList [''https://x/sitemap.xml''])
        \<and> footerComment opts = Some (FooterText ''built by CI'') \<longrightarrow>
         suffix ''Sitemap: https://x/sitemap.xml\<newline>\<newline># built by CI\<newline>'' (buildContent c opts)
         \<and> (policies opts = None \<and> policyBuilder opts = None \<longrightarrow>
              buildContent c opts =
                ''User-agent: *\<newline>Allow: /\<newline>\<newline>Sitemap: https://x/sitemap.xml\<newline>\<newline># built by CI\<newline>''
              \<and> \<not> sublist [NL, NL, NL] (buildContent c opts)))"
proof -
  let ?raw = "serializePolicies (fst (resolve_policies c opts))
      @ (if sitemap_block (fst (resolve_sitemaps c opts)) \<noteq> []
         then [NL] @ sitemap_block (fst (resolve_sitemaps c opts)) else [])
      @ footer_block (fst (resolve_footer c opts))"
  have bc: "buildContent c opts = replace_trailing_newlines ?raw"
    by (rule buildContent_eq)
  have 1: "\<not> suffix [NL, NL, NL] (buildContent c opts)"
    unfolding bc by (rule replace_trailing_newlines_no_suffix)
  have 2: "buildContent c opts = p @ [NL, NL]"
    if "?raw = p @ replicate k NL" "p = [] \<or> last p \<noteq> NL" "3 \<le> k" for p k
  proof -
    have "min k 2 = 2" using that(3) by simp
    then have "replace_trailing_newlines (p @ replicate k NL) = p @ [NL, NL]"
      using replace_trailing_newlines_run [OF that(2), of k] by (simp add: replicate_two)
    then show ?thesis unfolding bc that(1) .
  qed
  have 3: "suffix ''Sitemap: https://x/sitemap.xml\<newline>\<newline># built by CI\<newline>'' (buildContent c opts)"
    if s: "sitemaps opts = Some (SitemapList [''https://x/sitemap.xml''])"
      and f: "footerComment opts = Some (FooterText ''built by CI'')"
  proof -
    have sb: "sitemap_block (fst (resolve_sitemaps c opts)) = ''Sitemap: https://x/sitemap.xml\<newline>''"
      by (simp add: resolve_sitemaps_def s sitemap_block_def)
    have fb: "footer_block (fst (resolve_footer c opts)) = ''\<newline># built by CI\<newline>''"
      by (simp add: resolve_footer_def f footer_block_def trim_def trimStart_def trimEnd_def is_space_def)
    have "?raw = (serializePolicies (fst (resolve_policies c opts))
        @ ''\<newline>Sitemap: https://x/sitemap.xml\<newline>\<newline># built by C'') @ [CHR ''I'', NL]"
      by (simp add: sb fb)
    moreover have "replace_trailing_newlines ((serializePolicies (fst (resolve_policies c opts))
        @ ''\<newline>Sitemap: https://x/sitemap.xml\<newline>\<newline># built by C'') @ [CHR ''I'', NL])
      = (serializePolicies (fst (resolve_policies c opts))
        @ ''\<newline>Sitemap: https://x/sitemap.xml\<newline>\<newline># built by C'') @ [CHR ''I'', NL]"
      by (rule replace_trailing_newlines_end) simp
    ultimately have "buildContent c opts = (serializePolicies (fst (resolve_policies c opts)) @ [NL])
        @ ''Sitemap: https://x/sitemap.xml\<newline>\<newline># built by CI\<newline>''"
      unfolding bc by simp
    then show ?thesis by (rule suffixI)
  qed
  have 4: "buildContent c opts =
        ''User-agent: *\<newline>Allow: /\<newline>\<newline>Sitemap: https://x/sitemap.xml\<newline>\<newline># built by CI\<newline>''
      \<and> \<not> sublist [NL, NL, NL] (buildContent c opts)"
    if s: "sitemaps opts = Some (SitemapList [''https://x/sitemap.xml''])"
      and f: "footerComment opts = Some (FooterText ''built by CI'')"
      and p: "policies opts = None" "policyBuilder opts = None"
  proof -
    have "fst (resolve_policies c opts) = defaultPolicies"
      by (simp add: resolve_policies_def p)
    then have h: "serializePolicies (fst (resolve_policies c opts)) = ''User-agent: *\<newline>Allow: /\<newline>''"
      by (simp add: default_head)
    have sb: "sitemap_block (fst (resolve_sitemaps c opts)) = ''Sitemap: https://x/sitemap.xml\<newline>''"
      by (simp add: resolve_sitemaps_def s sitemap_block_def)
    have fb: "footer_block (fst (resolve_footer c opts)) = ''\<newline># built by CI\<newline>''"
      by (simp add: resolve_footer_def f footer_block_def trim_def trimStart_def trimEnd_def is_space_def)
    have e: "buildContent c opts =
        ''User-agent: *\<newline>Allow: /\<newline>\<newline>Sitemap: https://x/sitemap.xml\<newline>\<newline># built by CI\<newline>''"
      unfolding bc h sb fb by simp
    have "\<not> sublist [NL, NL, NL]
        ''User-agent: *\<newline>Allow: /\<newline>\<newline>Sitemap: https://x/sitemap.xml\<newline>\<newline># built by CI\<newline>''"
      by (simp add: sublist_Cons_right)
    then show ?thesis using e by simp
  qed
  show ?thesis using 1 2 3 4 by blast
qed

theorem end_of_file_canonical_witness:
  "buildContent serve_ctx
     (no_options\<lparr>sitemaps := Some (SitemapList [''https://x/sitemap.xml'']),
                 footerComment := Some (FooterText ''built by CI'')\<rparr>)
   = ''User-agent: *\<newline>Allow: /\<newline>\<newline>Sitemap: https://x/sitemap.xml\<newline>\<newline># built by CI\<newline>''
   \<and> buildContent serve_ctx
     (no_options\<lparr>policies := Some [\<lparr>userAgent = None, allow = None, disallow = Some [''/tmp '', ''/x\<newline>\<newline>\<newline>'']\<rparr>]\<rparr>)
   = ''User-agent: *\<newline>Disallow: /tmp\<newline>Disallow: /x\<newline>\<newline>''"
proof -
  let ?o1 = "no_options\<lparr>sitemaps := Some (SitemapList [''https://x/sitemap.xml'']),
                 footerComment := Some (FooterText ''built by CI'')\<rparr>"
  let ?o2 = "no_options\<lparr>policies := Some [\<lparr>userAgent = None, allow = None, disallow = Some [''/tmp '', ''/x\<newline>\<newline>\<newline>'']\<rparr>]\<rparr>"
  have "buildContent serve_ctx ?o1
      = ''User-agent: *\<newline>Allow: /\<newline>\<newline>Sitemap: https://x/sitemap.xml\<newline>\<newline># built by CI\<newline>''"
    using end_of_file_canonical [of serve_ctx ?o1] by (simp add: no_options_def)
  moreover have "buildContent serve_ctx ?o2 = ''User-agent: *\<newline>Disallow: /tmp\<newline>Disallow: /x'' @ [NL, NL]"
  proof -
    let ?raw = "serializePolicies (fst (resolve_policies serve_ctx ?o2))
      @ (if sitemap_block (fst (resolve_sitemaps serve_ctx ?o2)) \<noteq> []
         then [NL] @ sitemap_block (fst (resolve_sitemaps serve_ctx ?o2)) else [])
      @ footer_block (fst (resolve_footer serve_ctx ?o2))"
    let ?p = "''User-agent: *\<newline>Disallow: /tmp\<newline>Disallow: /x''"
    have raw: "?raw = ?p @ replicate 4 NL"
      by (simp add: eval_defs numeral_eq_Suc)
    have "\<forall>p k. ?raw = p @ replicate k NL \<and> (p = [] \<or> last p \<noteq> NL) \<and> 3 \<le> k \<longrightarrow>
        buildContent serve_ctx ?o2 = p @ [NL, NL]"
      using end_of_file_canonical [of serve_ctx ?o2] by (rule conjunct1 [OF conjunct2])
    then have "?raw = ?p @ replicate 4 NL \<and> (?p = [] \<or> last ?p \<noteq> NL) \<and> 3 \<le> (4::nat) \<longrightarrow>
        buildContent serve_ctx ?o2 = ?p @ [NL, NL]"
      by blast
    moreover have "?p = [] \<or> last ?p \<noteq> NL" by simp
    moreover have "3 \<le> (4::nat)" by simp
    ultimately show ?thesis using raw by blast
  qed
  ultimately show ?thesis by simp
qed

subsection \<open>Claim C9\<close>




subsection \<open>Claim C10\<close>

text \<open>
  Claim C10. When the options hold no function (no policy builder, sitemaps and footer
  absent or plain data), the synthesised text is the same for any two contexts, in both
  source files, and no user function is called.
\<close>

theorem context_noninterference:
  assumes "static_options opts"
  shows "buildContent c1 opts = buildContent c2 opts
    \<and> gr_buildContent c1 opts = gr_buildContent c2 opts
    \<and> snd (buildContent_run c1 opts) = []"
proof -
  have calls: "snd (resolve_policies c1 opts) = []" "snd (resolve_sitemaps c1 opts) = []"
    "snd (resolve_footer c1 opts) = []"
    using assms
    by (auto simp: static_options_def resolve_policies_def resolve_sitemaps_def
        resolve_footer_def split: option.splits sitemaps_option.splits footer_option.splits)
  show ?thesis
    using static_resolutions [OF assms, of c1 c2] calls
    by (simp add: buildContent_eq buildContent_calls gr_buildContent_def)
qed

theorem context_noninterference_witness:
  "static_options
     (no_options\<lparr>sitemaps := Some (SitemapList [''/sitemap.xml'']),
                 footerComment := Some (FooterText ''built by CI'')\<rparr>)
   \<and> buildContent build_ctx
        (no_options\<lparr>sitemaps := Some (SitemapList [''/sitemap.xml'']),
                    footerComment := Some (FooterText ''built by CI'')\<rparr>)
     = buildContent serve_ctx
        (no_options\<lparr>sitemaps := Some (SitemapList [''/sitemap.xml'']),
                    footerComment := Some (FooterText ''built by CI'')\<rparr>)
   \<and> gr_buildContent build_ctx
        (no_options\<lparr>sitemaps := Some (SitemapList [''/sitemap.xml'']),
                    footerComment := Some (FooterText ''built by CI'')\<rparr>)
     = gr_buildContent serve_ctx
        (no_options\<lparr>sitemaps := Some (SitemapList [''/sitemap.xml'']),
                    footerComment := Some (FooterText ''built by CI'')\<rparr>)
   \<and> build_ctx \<noteq> serve_ctx"
  using context_noninterference
    [of "no_options\<lparr>sitemaps := Some (SitemapList [''/sitemap.xml'']),
                     footerComment := Some (FooterText ''built by CI'')\<rparr>" build_ctx serve_ctx]
  by (simp add: static_options_def no_options_def build_ctx_def serve_ctx_def)

end
